theory Spec2Isabelle
  imports Main "HOL-Library.Product_Lexorder" "HOL-Library.Sublist" "HOL-Library.Multiset"
begin

section \<open>The task manager of \<^verbatim>\<open>task_manager.py\<close>\<close>

text \<open>
  A shallow embedding of \<^verbatim>\<open>src/task_manager.py\<close>: the classes \<^verbatim>\<open>Task\<close> and
  \<^verbatim>\<open>Tasks\<close> and the command handler \<^verbatim>\<open>handle_command\<close>.

  Modelling decisions, each visible in the definitions below:
  \<^item> A \<^verbatim>\<open>datetime\<close> is the tuple (year, month, day, hour, minute, second, microsecond)
    that Python compares lexicographically; the order on tuples is the lexicographic one.
  \<^item> \<^verbatim>\<open>datetime.now()\<close> is a parameter \<open>now\<close> of every operation that reads the clock.
  \<^item> A Python \<^verbatim>\<open>str\<close> is a \<open>string\<close> whose characters are read as the code points
    0 to 255; code points above 255 are outside the model.
  \<^item> The module \<^verbatim>\<open>pickle\<close> is a parameter of the operations: a record of the two
    functions the program calls. \<open>py_pickle\<close> is the module itself, at the level of the
    object graph that it stores. The file \<^verbatim>\<open>.todo.pickle\<close> is a cell that holds the
    last blob written, or nothing when the file does not exist. Writing the file always
    succeeds (failures of the operating system are outside the model).
  \<^item> A reference to a task object held in the list is its position in the list; a
    method that mutates the object updates the list at that position.
  \<^item> \<^verbatim>\<open>print\<close> is modelled by the list of messages produced; a call of
    \<^verbatim>\<open>print_tasks\<close> is recorded with its arguments, the layout of the table is not
    modelled.
\<close>

subsection \<open>Dates and times\<close>

type_synonym datetime = "nat \<times> nat \<times> nat \<times> nat \<times> nat \<times> nat \<times> nat"

definition datetime_min :: datetime where
  "datetime_min = (1, 1, 1, 0, 0, 0, 0)"

definition datetime_max :: datetime where
  "datetime_max = (9999, 12, 31, 23, 59, 59, 999999)"

text \<open>
  \<^verbatim>\<open>datetime.strptime(s, "%m/%d/%Y")\<close>, after CPython's \<^verbatim>\<open>_strptime\<close>: the whole string
  must match \<^verbatim>\<open>(1[0-2]|0[1-9]|[1-9])/(3[01]|[12]\d|0[1-9]|[1-9]| [1-9])/(\d\d\d\d)\<close>, and the
  three numbers must form a date of the proleptic Gregorian calendar with a year of at
  least 1. \<open>None\<close> stands for the \<^verbatim>\<open>ValueError\<close> raised otherwise. The result is the
  midnight of that date.
\<close>

definition is_digit :: "char \<Rightarrow> bool" where
  "is_digit c = (c \<in> set ''0123456789'')"

definition digit_val :: "char \<Rightarrow> nat" where
  "digit_val c = of_char c - 48"

definition directive_m :: "string \<Rightarrow> nat option" where
  "directive_m s =
     (case s of
        [a, b] \<Rightarrow>
          if a = CHR ''1'' \<and> b \<in> set ''012'' then Some (10 + digit_val b)
          else if a = CHR ''0'' \<and> b \<in> set ''123456789'' then Some (digit_val b)
          else None
      | [a] \<Rightarrow> if a \<in> set ''123456789'' then Some (digit_val a) else None
      | _ \<Rightarrow> None)"

definition directive_d :: "string \<Rightarrow> nat option" where
  "directive_d s =
     (case s of
        [a, b] \<Rightarrow>
          if a = CHR ''3'' \<and> b \<in> set ''01'' then Some (30 + digit_val b)
          else if a \<in> set ''12'' \<and> is_digit b then Some (10 * digit_val a + digit_val b)
          else if a = CHR ''0'' \<and> b \<in> set ''123456789'' then Some (digit_val b)
          else if a = CHR '' '' \<and> b \<in> set ''123456789'' then Some (digit_val b)
          else None
      | [a] \<Rightarrow> if a \<in> set ''123456789'' then Some (digit_val a) else None
      | _ \<Rightarrow> None)"

definition directive_Y :: "string \<Rightarrow> nat option" where
  "directive_Y s =
     (case s of
        [a, b, c, d] \<Rightarrow>
          if is_digit a \<and> is_digit b \<and> is_digit c \<and> is_digit d
          then Some (1000 * digit_val a + 100 * digit_val b + 10 * digit_val c + digit_val d)
          else None
      | _ \<Rightarrow> None)"

definition is_leap :: "nat \<Rightarrow> bool" where
  "is_leap y = (y mod 4 = 0 \<and> (y mod 100 \<noteq> 0 \<or> y mod 400 = 0))"

definition days_in_month :: "nat \<Rightarrow> nat \<Rightarrow> nat" where
  "days_in_month y m =
     (if m = 2 then (if is_leap y then 29 else 28)
      else if m \<in> {4, 6, 9, 11} then 30 else 31)"

definition strptime :: "string \<Rightarrow> datetime option" where
  "strptime s =
     (let not_slash = (\<lambda>c. c \<noteq> CHR ''/'');
          m_text = takeWhile not_slash s;
          rest1 = dropWhile not_slash s
      in case rest1 of
           [] \<Rightarrow> None
         | _ # after_m \<Rightarrow>
             (let d_text = takeWhile not_slash after_m;
                  rest2 = dropWhile not_slash after_m
              in case rest2 of
                   [] \<Rightarrow> None
                 | _ # y_text \<Rightarrow>
                     (case (directive_m m_text, directive_d d_text, directive_Y y_text) of
                        (Some m, Some d, Some y) \<Rightarrow>
                          if 1 \<le> y \<and> d \<le> days_in_month y m
                          then Some (y, m, d, 0, 0, 0, 0)
                          else None
                      | _ \<Rightarrow> None)))"

subsection \<open>Strings\<close>

text \<open>
  \<^verbatim>\<open>str.isdigit()\<close>: false on the empty string, otherwise true when every character is
  a digit; below code point 256 the digits are 0 to 9 and the superscripts 1, 2 and 3
  (code points 185, 178, 179).
\<close>

definition isdigit :: "string \<Rightarrow> bool" where
  "isdigit s =
     (s \<noteq> [] \<and> list_all (\<lambda>c. is_digit c \<or> (of_char c :: nat) \<in> {178, 179, 185}) s)"

text \<open>
  \<^verbatim>\<open>str.lower()\<close>: below code point 256 the upper-case letters are A to Z and the code
  points 192 to 222 except 215; each maps to the code point 32 above it.
\<close>

definition lower_char :: "char \<Rightarrow> char" where
  "lower_char c =
     (let n = (of_char c :: nat)
      in if (65 \<le> n \<and> n \<le> 90) \<or> (192 \<le> n \<and> n \<le> 222 \<and> n \<noteq> 215)
         then char_of (n + 32) else c)"

definition lower :: "string \<Rightarrow> string" where
  "lower s = map lower_char s"

subsection \<open>The class \<^verbatim>\<open>Task\<close>\<close>

record Task =
  created :: datetime
  completed :: "datetime option"
  deleted :: bool
  name :: string
  unique_id :: int
  priority :: int
  due_date :: "datetime option"

definition Task_init :: "datetime \<Rightarrow> int \<Rightarrow> string \<Rightarrow> int \<Rightarrow> datetime option \<Rightarrow> Task" where
  "Task_init now uid nm prio due =
     \<lparr>created = now, completed = None, deleted = False, name = nm,
      unique_id = uid, priority = prio, due_date = due\<rparr>"

definition mark_completed :: "datetime \<Rightarrow> Task \<Rightarrow> Task" where
  "mark_completed now t = t\<lparr>completed := Some now\<rparr>"

definition mark_deleted :: "Task \<Rightarrow> Task" where
  "mark_deleted t = t\<lparr>deleted := True\<rparr>"

subsection \<open>The class \<^verbatim>\<open>Tasks\<close>\<close>

text \<open>
  The state: the list \<^verbatim>\<open>self.tasks\<close> and the content of the file \<^verbatim>\<open>.todo.pickle\<close>
  (\<open>None\<close> when the file does not exist).
\<close>

record 'b state =
  tasks :: "Task list"
  disk :: "'b option"

text \<open>
  The module \<^verbatim>\<open>pickle\<close>: \<open>dump\<close> always yields a blob, \<open>load\<close> yields \<open>None\<close> where
  \<^verbatim>\<open>pickle.load\<close> raises.
\<close>

record 'b pickle =
  dump :: "Task list \<Rightarrow> 'b"
  load :: "'b \<Rightarrow> Task list option"

datatype error = UnpicklingError

definition pickle_tasks :: "'b pickle \<Rightarrow> 'b state \<Rightarrow> 'b state" where
  "pickle_tasks pk s = s\<lparr>disk := Some (dump pk (tasks s))\<rparr>"

definition load_tasks :: "'b pickle \<Rightarrow> 'b state \<Rightarrow> error + 'b state" where
  "load_tasks pk s =
     (case disk s of
        Some blob \<Rightarrow>
          (case load pk blob of
             None \<Rightarrow> Inl UnpicklingError
           | Some ts \<Rightarrow> Inr (s\<lparr>tasks := ts\<rparr>))
      | None \<Rightarrow> Inr (s\<lparr>tasks := []\<rparr>))"

text \<open>\<^verbatim>\<open>Tasks()\<close>, run where the file holds \<open>d\<close>.\<close>

definition Tasks_init :: "'b pickle \<Rightarrow> 'b option \<Rightarrow> error + 'b state" where
  "Tasks_init pk d = load_tasks pk \<lparr>tasks = [], disk = d\<rparr>"

definition Tasks_add :: "'b pickle \<Rightarrow> Task \<Rightarrow> 'b state \<Rightarrow> 'b state" where
  "Tasks_add pk task s = pickle_tasks pk (s\<lparr>tasks := tasks s @ [task]\<rparr>)"

definition Tasks_delete :: "'b pickle \<Rightarrow> int \<Rightarrow> 'b state \<Rightarrow> 'b state" where
  "Tasks_delete pk uid s =
     pickle_tasks pk (s\<lparr>tasks := filter (\<lambda>t. unique_id t \<noteq> uid) (tasks s)\<rparr>)"

text \<open>
  \<^verbatim>\<open>sorted(xs, key=k, reverse=r)\<close>: a stable sort; with \<^verbatim>\<open>reverse=True\<close> the list is
  reversed, sorted and reversed again, so that elements with equal keys keep their
  order.
\<close>

definition py_sorted :: "('a \<Rightarrow> 'k::linorder) \<Rightarrow> bool \<Rightarrow> 'a list \<Rightarrow> 'a list" where
  "py_sorted k reverse xs = (if reverse then rev (sort_key k (rev xs)) else sort_key k xs)"

definition list_key :: "Task \<Rightarrow> datetime \<times> int" where
  "list_key t = ((case due_date t of Some d \<Rightarrow> d | None \<Rightarrow> datetime_min), - priority t)"

definition Tasks_list :: "'b state \<Rightarrow> Task list" where
  "Tasks_list s =
     (let not_completed_tasks = filter (\<lambda>task. completed task = None \<and> \<not> deleted task) (tasks s)
      in py_sorted list_key True not_completed_tasks)"

definition Tasks_query :: "string list \<Rightarrow> 'b state \<Rightarrow> Task list" where
  "Tasks_query keywords s =
     (let not_completed_tasks = filter (\<lambda>t. completed t = None) (tasks s)
      in filter (\<lambda>t. list_ex (\<lambda>keyword. sublist (lower keyword) (lower (name t))) keywords)
           not_completed_tasks)"

text \<open>
  The loop of \<^verbatim>\<open>Tasks.done\<close>: the first task with the id is marked; \<open>None\<close> when the
  loop ends without finding one.
\<close>

fun done_loop :: "datetime \<Rightarrow> int \<Rightarrow> Task list \<Rightarrow> Task list option" where
  "done_loop now uid [] = None"
| "done_loop now uid (task # rest) =
     (if unique_id task = uid then Some (mark_completed now task # rest)
      else map_option ((#) task) (done_loop now uid rest))"

definition Tasks_done :: "'b pickle \<Rightarrow> datetime \<Rightarrow> int \<Rightarrow> 'b state \<Rightarrow> 'b state \<times> bool" where
  "Tasks_done pk now uid s =
     (case done_loop now uid (tasks s) of
        Some ts \<Rightarrow> (pickle_tasks pk (s\<lparr>tasks := ts\<rparr>), True)
      | None \<Rightarrow> (s, False))"

definition report_key :: "Task \<Rightarrow> datetime \<times> int" where
  "report_key t = ((case due_date t of Some d \<Rightarrow> d | None \<Rightarrow> datetime_max), - priority t)"

definition Tasks_report :: "'b state \<Rightarrow> Task list" where
  "Tasks_report s = py_sorted report_key False (tasks s)"

text \<open>
  \<^verbatim>\<open>Tasks.get_task_by_id\<close> returns a reference to the first task with the id: here its
  position in the list.
\<close>

fun get_task_by_id :: "int \<Rightarrow> Task list \<Rightarrow> nat option" where
  "get_task_by_id uid [] = None"
| "get_task_by_id uid (task # rest) =
     (if unique_id task = uid then Some 0 else map_option Suc (get_task_by_id uid rest))"

subsection \<open>The command handler\<close>

record args =
  arg_add :: "string option"
  arg_due :: "string option"
  arg_priority :: "int option"
  arg_list :: bool
  arg_query :: "string list option"
  arg_done :: "int option"
  arg_delete :: "int option"
  arg_report :: bool

text \<open>
  What the handler prints. \<open>PrintTasks ts c d e\<close> is the call
  \<^verbatim>\<open>print_tasks(ts, show_created=c, show_completed=d, show_deleted=e)\<close>, which prints
  one row for each task of \<open>ts\<close>, in the order of \<open>ts\<close>.
\<close>

datatype message =
    ErrorCreating
  | WarningInvalidDue
  | Created int
  | Completed int
  | Deleted int
  | NotFound int
  | NoValidCommand
  | PrintTasks "Task list" bool bool bool

text \<open>The branch of \<^verbatim>\<open>--add\<close> (lines 139 to 155), on a loaded task manager.\<close>

definition handle_add ::
  "'b pickle \<Rightarrow> datetime \<Rightarrow> string \<Rightarrow> string option \<Rightarrow> int option \<Rightarrow> 'b state
     \<Rightarrow> 'b state \<times> message list" where
  "handle_add pk now nm due prio s =
     (if nm = [] \<or> isdigit nm then (s, [ErrorCreating])
      else
        let (due_date, warning) =
              (case due of
                 None \<Rightarrow> (None, [])
               | Some text \<Rightarrow>
                   if text = [] then (None, [])
                   else (case strptime text of
                           Some d \<Rightarrow> (Some d, [])
                         | None \<Rightarrow> (None, [WarningInvalidDue])));
            unique_id = int (length (tasks s)) + 1;
            p = (case prio of None \<Rightarrow> 1 | Some n \<Rightarrow> if n = 0 then 1 else n)
        in (Tasks_add pk (Task_init now unique_id nm p due_date) s,
            warning @ [Created unique_id]))"

text \<open>The branch of \<^verbatim>\<open>--done\<close> (lines 169 to 172).\<close>

definition handle_done ::
  "'b pickle \<Rightarrow> datetime \<Rightarrow> int \<Rightarrow> 'b state \<Rightarrow> 'b state \<times> message list" where
  "handle_done pk now uid s =
     (case Tasks_done pk now uid s of
        (s', True) \<Rightarrow> (s', [Completed uid])
      | (s', False) \<Rightarrow> (s', [NotFound uid]))"

text \<open>The branch of \<^verbatim>\<open>--delete\<close> (lines 176 to 182): the task is marked, not removed.\<close>

definition handle_delete :: "'b pickle \<Rightarrow> int \<Rightarrow> 'b state \<Rightarrow> 'b state \<times> message list" where
  "handle_delete pk uid s =
     (case get_task_by_id uid (tasks s) of
        Some i \<Rightarrow>
          (pickle_tasks pk (s\<lparr>tasks := (tasks s)[i := mark_deleted (tasks s ! i)]\<rparr>),
           [Deleted uid])
      | None \<Rightarrow> (s, [NotFound uid]))"

definition truthy_int :: "int option \<Rightarrow> bool" where
  "truthy_int v = (case v of None \<Rightarrow> False | Some n \<Rightarrow> n \<noteq> 0)"

definition truthy_list :: "'a list option \<Rightarrow> bool" where
  "truthy_list v = (case v of None \<Rightarrow> False | Some xs \<Rightarrow> xs \<noteq> [])"

definition handle_command ::
  "'b pickle \<Rightarrow> datetime \<Rightarrow> args \<Rightarrow> 'b option \<Rightarrow> error + 'b state \<times> message list" where
  "handle_command pk now a d =
     (case Tasks_init pk d of
        Inl e \<Rightarrow> Inl e
      | Inr tasks_manager \<Rightarrow>
          Inr (if arg_add a \<noteq> None
               then handle_add pk now (the (arg_add a)) (arg_due a) (arg_priority a) tasks_manager
               else if arg_list a
               then (tasks_manager, [PrintTasks (Tasks_list tasks_manager) False False False])
               else if truthy_list (arg_query a)
               then (tasks_manager,
                     [PrintTasks (Tasks_query (the (arg_query a)) tasks_manager) False False False])
               else if truthy_int (arg_done a)
               then handle_done pk now (the (arg_done a)) tasks_manager
               else if truthy_int (arg_delete a)
               then handle_delete pk (the (arg_delete a)) tasks_manager
               else if arg_report a
               then (tasks_manager, [PrintTasks (tasks tasks_manager) True True True])
               else (tasks_manager, [NoValidCommand])))"

subsection \<open>Sequences of operations on one store\<close>

text \<open>
  The four operations that change a store: \<open>Add\<close> is the branch of \<^verbatim>\<open>--add\<close>, which
  assigns the id; \<open>Delete\<close> is \<^verbatim>\<open>Tasks.delete\<close>, which removes the task;
  \<open>MarkCompleted\<close> is \<^verbatim>\<open>Tasks.done\<close>; \<open>MarkDeleted\<close> is the branch of
  \<^verbatim>\<open>--delete\<close>, which sets the flag. Each operation comes with the time at which it
  runs.
\<close>

datatype op =
    Add string "string option" "int option"
  | Delete int
  | MarkCompleted int
  | MarkDeleted int

fun apply_op :: "'b pickle \<Rightarrow> datetime \<Rightarrow> op \<Rightarrow> 'b state \<Rightarrow> 'b state \<times> message list" where
  "apply_op pk now (Add nm due prio) s = handle_add pk now nm due prio s"
| "apply_op pk now (Delete uid) s = (Tasks_delete pk uid s, [])"
| "apply_op pk now (MarkCompleted uid) s = handle_done pk now uid s"
| "apply_op pk now (MarkDeleted uid) s = handle_delete pk uid s"

fun run :: "'b pickle \<Rightarrow> (datetime \<times> op) list \<Rightarrow> 'b state \<Rightarrow> 'b state \<times> message list" where
  "run pk [] s = (s, [])"
| "run pk ((now, x) # xs) s =
     (case apply_op pk now x s of
        (s', out) \<Rightarrow> (case run pk xs s' of (s'', out') \<Rightarrow> (s'', out @ out')))"

text \<open>The ids of the tasks created, read off the messages \<^verbatim>\<open>Created task <id>\<close>.\<close>

fun created_ids :: "message list \<Rightarrow> int list" where
  "created_ids [] = []"
| "created_ids (Created i # ms) = i # created_ids ms"
| "created_ids (_ # ms) = created_ids ms"

fun is_Delete :: "op \<Rightarrow> bool" where
  "is_Delete (Delete _) = True"
| "is_Delete _ = False"

definition empty_store :: "'b state" where
  "empty_store = \<lparr>tasks = [], disk = None\<rparr>"

text \<open>The ids of a list of tasks are 1, 2, 3 and so on, in the order of the list.\<close>

definition ids_by_position :: "Task list \<Rightarrow> bool" where
  "ids_by_position ts = (map unique_id ts = map int [1..<Suc (length ts)])"

subsection \<open>Due dates are dates\<close>

text \<open>
  A due date is the midnight of a calendar day: the only due dates the program
  creates are results of \<open>strptime\<close>.
\<close>

definition is_date :: "datetime \<Rightarrow> bool" where
  "is_date dt =
     (case dt of (y, m, d, hh, mm, ss, us) \<Rightarrow>
        1 \<le> y \<and> y \<le> 9999 \<and> 1 \<le> m \<and> m \<le> 12 \<and> 1 \<le> d \<and> d \<le> days_in_month y m \<and>
        hh = 0 \<and> mm = 0 \<and> ss = 0 \<and> us = 0)"

definition dates_only :: "Task list \<Rightarrow> bool" where
  "dates_only ts = list_all (\<lambda>t. case due_date t of None \<Rightarrow> True | Some d \<Rightarrow> is_date d) ts"

subsection \<open>What \<^verbatim>\<open>pickle\<close> stores\<close>

text \<open>
  \<^verbatim>\<open>pickle.dump\<close> stores an object graph: \<^verbatim>\<open>None\<close>, booleans, integers, strings and
  datetimes as they are, a list as the list of its elements, and an instance of a class
  as the qualified name of the class with the items of the instance's \<^verbatim>\<open>__dict__\<close>, in
  the order in which the attributes were set. \<^verbatim>\<open>pickle.load\<close> rebuilds the graph: for
  an instance it makes an object of the named class, without calling \<^verbatim>\<open>__init__\<close>, and
  restores its \<^verbatim>\<open>__dict__\<close>. The bytes that encode the graph are not modelled: a blob
  is the graph that the bytes stand for.
\<close>

datatype pyval =
    PNone
  | PBool bool
  | PInt int
  | PStr string
  | PDatetime datetime
  | PList "pyval list"
  | PInstance string "(string \<times> pyval) list"

definition optional_datetime :: "datetime option \<Rightarrow> pyval" where
  "optional_datetime v = (case v of None \<Rightarrow> PNone | Some d \<Rightarrow> PDatetime d)"

text \<open>
  The \<^verbatim>\<open>__dict__\<close> of a task: the seven attributes, in the order in which
  \<^verbatim>\<open>Task.__init__\<close> sets them (lines 11 to 17).
\<close>

definition Task_dict :: "Task \<Rightarrow> (string \<times> pyval) list" where
  "Task_dict t =
     [(''created'', PDatetime (created t)),
      (''completed'', optional_datetime (completed t)),
      (''deleted'', PBool (deleted t)),
      (''name'', PStr (name t)),
      (''unique_id'', PInt (unique_id t)),
      (''priority'', PInt (priority t)),
      (''due_date'', optional_datetime (due_date t))]"

text \<open>The program runs as a script, so the class \<^verbatim>\<open>Task\<close> belongs to \<^verbatim>\<open>__main__\<close>.\<close>

definition pickle_Task :: "Task \<Rightarrow> pyval" where
  "pickle_Task t = PInstance ''__main__.Task'' (Task_dict t)"

text \<open>
  Reading a graph as a list of tasks. A graph that is not a list of instances of
  \<^verbatim>\<open>Task\<close>, each with the seven attributes holding values of the types that the
  program stores in them, is not a list of tasks: \<open>None\<close>.
\<close>

fun as_datetime :: "pyval \<Rightarrow> datetime option" where
  "as_datetime (PDatetime d) = Some d"
| "as_datetime _ = None"

fun as_optional_datetime :: "pyval \<Rightarrow> datetime option option" where
  "as_optional_datetime PNone = Some None"
| "as_optional_datetime (PDatetime d) = Some (Some d)"
| "as_optional_datetime _ = None"

fun as_bool :: "pyval \<Rightarrow> bool option" where
  "as_bool (PBool b) = Some b"
| "as_bool _ = None"

fun as_int :: "pyval \<Rightarrow> int option" where
  "as_int (PInt i) = Some i"
| "as_int _ = None"

fun as_str :: "pyval \<Rightarrow> string option" where
  "as_str (PStr s) = Some s"
| "as_str _ = None"

definition attribute :: "(string \<times> pyval) list \<Rightarrow> string \<Rightarrow> (pyval \<Rightarrow> 'a option) \<Rightarrow> 'a option" where
  "attribute d key as_type = Option.bind (map_of d key) as_type"

definition Task_of_dict :: "(string \<times> pyval) list \<Rightarrow> Task option" where
  "Task_of_dict d =
     Option.bind (attribute d ''created'' as_datetime) (\<lambda>v_created.
     Option.bind (attribute d ''completed'' as_optional_datetime) (\<lambda>v_completed.
     Option.bind (attribute d ''deleted'' as_bool) (\<lambda>v_deleted.
     Option.bind (attribute d ''name'' as_str) (\<lambda>v_name.
     Option.bind (attribute d ''unique_id'' as_int) (\<lambda>v_unique_id.
     Option.bind (attribute d ''priority'' as_int) (\<lambda>v_priority.
     Option.bind (attribute d ''due_date'' as_optional_datetime) (\<lambda>v_due_date.
       Some \<lparr>created = v_created, completed = v_completed, deleted = v_deleted,
             name = v_name, unique_id = v_unique_id, priority = v_priority,
             due_date = v_due_date\<rparr>)))))))"

fun unpickle_Task :: "pyval \<Rightarrow> Task option" where
  "unpickle_Task (PInstance cls d) = (if cls = ''__main__.Task'' then Task_of_dict d else None)"
| "unpickle_Task _ = None"

fun unpickle_Tasks :: "pyval \<Rightarrow> Task list option" where
  "unpickle_Tasks (PList vs) = those (map unpickle_Task vs)"
| "unpickle_Tasks _ = None"

definition py_pickle :: "pyval pickle" where
  "py_pickle = \<lparr>dump = (\<lambda>ts. PList (map pickle_Task ts)), load = unpickle_Tasks\<rparr>"

subsection \<open>Example values\<close>

text \<open>A pickle module whose blobs are the lists themselves.\<close>

definition example_pickle :: "Task list pickle" where
  "example_pickle = \<lparr>dump = (\<lambda>ts. ts), load = Some\<rparr>"

definition t0 :: datetime where
  "t0 = (2025, 3, 1, 9, 30, 0, 0)"

definition jan1 :: datetime where
  "jan1 = (2025, 1, 1, 0, 0, 0, 0)"

definition feb1 :: datetime where
  "feb1 = (2025, 2, 1, 0, 0, 0, 0)"

definition no_args :: args where
  "no_args =
     \<lparr>arg_add = None, arg_due = None, arg_priority = None, arg_list = False,
      arg_query = None, arg_done = None, arg_delete = None, arg_report = False\<rparr>"

text \<open>
  A store for the two sorted views: two tasks due the same day with priorities 3 and
  1, a task with no due date, a task due a month earlier, a completed and a deleted
  task.
\<close>

definition example_tasks :: "Task list" where
  "example_tasks =
     [Task_init t0 1 ''write report'' 3 (Some feb1),
      Task_init t0 2 ''read mail'' 1 (Some feb1),
      Task_init t0 3 ''call home'' 1 None,
      Task_init t0 4 ''buy milk'' 2 (Some jan1),
      (Task_init t0 5 ''pay rent'' 2 (Some feb1))\<lparr>completed := Some t0\<rparr>,
      (Task_init t0 6 ''Fix Report'' 3 None)\<lparr>deleted := True\<rparr>]"

definition example_store :: "Task list state" where
  "example_store = \<lparr>tasks = example_tasks, disk = Some example_tasks\<rparr>"

section \<open>Properties\<close>

subsection \<open>Sorting\<close>

lemma mset_py_sorted: "mset (py_sorted k r xs) = mset xs"
  by (simp add: py_sorted_def)

lemma set_py_sorted: "set (py_sorted k r xs) = set xs"
  by (simp add: py_sorted_def)

lemma length_py_sorted: "length (py_sorted k r xs) = length xs"
  by (simp add: py_sorted_def)

lemma py_sorted_stable:
  "filter (\<lambda>y. k y = a) (py_sorted k r xs) = filter (\<lambda>y. k y = a) xs"
proof (cases r)
  case True
  have "filter (\<lambda>y. k y = a) (rev (sort_key k (rev xs)))
        = rev (filter (\<lambda>y. k y = a) (sort_key k (rev xs)))"
    by (simp add: rev_filter)
  also have "\<dots> = rev (filter (\<lambda>y. k y = a) (rev xs))"
    by (simp only: sort_key_stable)
  also have "\<dots> = filter (\<lambda>y. k y = a) xs"
    by (simp add: rev_filter)
  finally show ?thesis using True by (simp add: py_sorted_def)
next
  case False
  then show ?thesis by (simp add: py_sorted_def sort_key_stable)
qed

lemma py_sorted_ascending:
  assumes "i < j" and "j < length (py_sorted k False xs)"
  shows "k (py_sorted k False xs ! i) \<le> k (py_sorted k False xs ! j)"
proof -
  have "sorted (map k (py_sorted k False xs))"
    by (simp add: py_sorted_def)
  from sorted_nth_mono [OF this, of i j] assms show ?thesis
    by simp
qed

lemma py_sorted_descending:
  assumes "i < j" and "j < length (py_sorted k True xs)"
  shows "k (py_sorted k True xs ! j) \<le> k (py_sorted k True xs ! i)"
proof -
  have "sorted (rev (map k (py_sorted k True xs)))"
    by (simp add: py_sorted_def rev_map)
  from sorted_rev_nth_mono [OF this, of i j] assms show ?thesis
    by simp
qed

lemma fst_le_lex: "(x :: 'a::linorder \<times> 'b::linorder) \<le> y \<Longrightarrow> fst x \<le> fst y"
  by (cases x, cases y) auto

subsection \<open>Due dates\<close>

lemma is_date_less_max: "is_date d \<Longrightarrow> d < datetime_max"
  by (auto simp: is_date_def datetime_max_def days_in_month_def split: if_splits)

lemma is_date_ge_min: "is_date d \<Longrightarrow> datetime_min \<le> d"
  by (auto simp: is_date_def datetime_min_def)

lemma dates_only_nth:
  assumes "dates_only ts" and "t \<in> set ts" and "due_date t = Some d"
  shows "is_date d"
proof -
  from assms(1,2) have "case due_date t of None \<Rightarrow> True | Some d \<Rightarrow> is_date d"
    by (simp add: dates_only_def list_all_iff)
  with assms(3) show ?thesis by simp
qed

text \<open>Every date that \<open>strptime\<close> returns is a date.\<close>

lemma digit_val_le: "is_digit c \<Longrightarrow> digit_val c \<le> 9"
  by (auto simp: is_digit_def digit_val_def)

lemma directive_m_range: "directive_m s = Some m \<Longrightarrow> 1 \<le> m \<and> m \<le> 12"
  by (auto simp: directive_m_def digit_val_def split: list.splits if_splits)

lemma directive_d_range: "directive_d s = Some d \<Longrightarrow> 1 \<le> d"
  by (auto simp: directive_d_def digit_val_def split: list.splits if_splits)

lemma directive_Y_range: "directive_Y s = Some y \<Longrightarrow> y \<le> 9999"
proof -
  assume a: "directive_Y s = Some y"
  then obtain a b c d where s: "s = [a, b, c, d]" and dg: "is_digit a" "is_digit b" "is_digit c" "is_digit d"
    and y: "y = 1000 * digit_val a + 100 * digit_val b + 10 * digit_val c + digit_val d"
    by (auto simp: directive_Y_def split: list.splits if_splits)
  from dg have "digit_val a \<le> 9" "digit_val b \<le> 9" "digit_val c \<le> 9" "digit_val d \<le> 9"
    by (simp_all add: digit_val_le)
  with y show ?thesis by simp
qed

lemma strptime_is_date:
  assumes "strptime s = Some dt"
  shows "is_date dt"
proof -
  from assms obtain m_text d_text y_text m d y where
    "directive_m m_text = Some m" "directive_d d_text = Some d" "directive_Y y_text = Some y"
    "1 \<le> y" "d \<le> days_in_month y m" "dt = (y, m, d, 0, 0, 0, 0)"
    by (auto simp: strptime_def Let_def split: list.splits option.splits if_splits)
  then show ?thesis
    using directive_m_range directive_d_range directive_Y_range
    by (auto simp: is_date_def)
qed

text \<open>
  The operations keep the due dates of a store dates: every store built from the empty
  one has dates only.
\<close>

lemma get_task_by_id_less: "get_task_by_id uid ts = Some i \<Longrightarrow> i < length ts"
  by (induction ts arbitrary: i) (auto split: if_splits)

lemma handle_add_dates_only:
  "dates_only (tasks s) \<Longrightarrow> dates_only (tasks (fst (handle_add pk now nm due prio s)))"
  by (auto simp: handle_add_def Tasks_add_def pickle_tasks_def Task_init_def Let_def dates_only_def
      strptime_is_date split: option.splits)


lemma dates_only_map:
  "dates_only ts = list_all (\<lambda>d. case d of None \<Rightarrow> True | Some d \<Rightarrow> is_date d) (map due_date ts)"
  by (simp add: dates_only_def list_all_iff)

lemma done_loop_due_dates:
  "done_loop now uid ts = Some ts' \<Longrightarrow> map due_date ts' = map due_date ts"
  by (induction ts arbitrary: ts') (auto simp: mark_completed_def split: if_splits)

lemma handle_done_dates_only:
  "dates_only (tasks s) \<Longrightarrow> dates_only (tasks (fst (handle_done pk now uid s)))"
  by (cases "done_loop now uid (tasks s)")
     (simp_all add: handle_done_def Tasks_done_def pickle_tasks_def dates_only_map
        done_loop_due_dates)

lemma handle_delete_dates_only:
  assumes "dates_only (tasks s)"
  shows "dates_only (tasks (fst (handle_delete pk uid s)))"
proof (cases "get_task_by_id uid (tasks s)")
  case None
  with assms show ?thesis by (simp add: handle_delete_def)
next
  case (Some i)
  then have "i < length (tasks s)"
    by (rule get_task_by_id_less)
  then have "map due_date ((tasks s)[i := mark_deleted (tasks s ! i)]) = map due_date (tasks s)"
    by (simp add: map_update mark_deleted_def list_update_same_conv)
  with assms Some show ?thesis
    by (simp add: handle_delete_def pickle_tasks_def dates_only_map)
qed

lemma Tasks_delete_dates_only:
  "dates_only (tasks s) \<Longrightarrow> dates_only (tasks (Tasks_delete pk uid s))"
  by (simp add: Tasks_delete_def pickle_tasks_def dates_only_def list_all_iff)

lemma apply_op_dates_only:
  "dates_only (tasks s) \<Longrightarrow> dates_only (tasks (fst (apply_op pk now x s)))"
  by (cases x)
     (simp_all add: handle_add_dates_only handle_done_dates_only handle_delete_dates_only
        Tasks_delete_dates_only)

lemma run_dates_only:
  "dates_only (tasks s) \<Longrightarrow> dates_only (tasks (fst (run pk ops s)))"
proof (induction ops arbitrary: s)
  case Nil
  then show ?case by simp
next
  case (Cons a ops)
  obtain now x where a: "a = (now, x)"
    by (cases a)
  from Cons.prems have "dates_only (tasks (fst (apply_op pk now x s)))"
    by (rule apply_op_dates_only)
  then have "dates_only (tasks (fst (run pk ops (fst (apply_op pk now x s)))))"
    by (rule Cons.IH)
  then show ?case
    by (auto simp: a split: prod.splits)
qed

lemma run_empty_store_dates_only: "dates_only (tasks (fst (run pk ops empty_store)))"
  by (rule run_dates_only) (simp add: dates_only_def empty_store_def)

lemmas example_defs = example_store_def example_tasks_def Task_init_def t0_def jan1_def feb1_def

section \<open>The claims\<close>

text \<open>
  Priorities are compared as integers: the higher priority is the greater number, as in
  the order of \<^verbatim>\<open>Tasks.report\<close>.
\<close>

subsection \<open>C1: the order of \<^verbatim>\<open>Tasks.list\<close>\<close>

text \<open>
  What the code does, in full: the listing is in descending order of the whole key (due
  date or the minimum datetime, minus priority), so that within equal due dates the
  task with the smaller priority number comes first, and tasks with equal keys keep the
  order of the store.
\<close>

lemma Tasks_list_key_order:
  "(\<forall>k. filter (\<lambda>t. list_key t = k) (Tasks_list s) =
        filter (\<lambda>t. list_key t = k) (filter (\<lambda>t. completed t = None \<and> \<not> deleted t) (tasks s))) \<and>
   (\<forall>i j. i < j \<and> j < length (Tasks_list s) \<longrightarrow>
      list_key (Tasks_list s ! j) \<le> list_key (Tasks_list s ! i) \<and>
      (due_date (Tasks_list s ! i) = due_date (Tasks_list s ! j) \<longrightarrow>
         priority (Tasks_list s ! i) \<le> priority (Tasks_list s ! j)))"
proof (intro conjI allI impI)
  fix k
  show "filter (\<lambda>t. list_key t = k) (Tasks_list s) =
        filter (\<lambda>t. list_key t = k) (filter (\<lambda>t. completed t = None \<and> \<not> deleted t) (tasks s))"
    unfolding Tasks_list_def Let_def by (rule py_sorted_stable)
next
  fix i j
  assume ij: "i < j \<and> j < length (Tasks_list s)"
  then show ge: "list_key (Tasks_list s ! j) \<le> list_key (Tasks_list s ! i)"
    unfolding Tasks_list_def Let_def by (simp add: py_sorted_descending)
  {
    assume "due_date (Tasks_list s ! i) = due_date (Tasks_list s ! j)"
    with ge show "priority (Tasks_list s ! i) \<le> priority (Tasks_list s ! j)"
      by (simp add: list_key_def)
  }
qed

text \<open>
  C1, as far as it holds. \<open>Tasks_list\<close> returns exactly the tasks that are neither
  completed nor deleted (as a multiset), in descending order of the due date, a missing
  due date counting as the minimum datetime. For positions \<open>i < j\<close> of the result: of
  two dated tasks the later due date comes first, and a dated task that follows a task
  with no due date is due no later than the minimum datetime, so that the tasks with no
  due date come after every task due later than that. Nothing is said here about the
  order within equal due dates.
\<close>

theorem Tasks_list_sorted:
  "mset (Tasks_list s) = mset (filter (\<lambda>t. completed t = None \<and> \<not> deleted t) (tasks s)) \<and>
   (\<forall>i j. i < j \<and> j < length (Tasks_list s) \<longrightarrow>
      fst (list_key (Tasks_list s ! j)) \<le> fst (list_key (Tasks_list s ! i)) \<and>
      (\<forall>d d'. due_date (Tasks_list s ! i) = Some d \<and> due_date (Tasks_list s ! j) = Some d'
         \<longrightarrow> d' \<le> d) \<and>
      (\<forall>d'. due_date (Tasks_list s ! i) = None \<and> due_date (Tasks_list s ! j) = Some d'
         \<longrightarrow> d' \<le> datetime_min))"
proof (intro conjI allI impI)
  show "mset (Tasks_list s) = mset (filter (\<lambda>t. completed t = None \<and> \<not> deleted t) (tasks s))"
    by (simp add: Tasks_list_def mset_py_sorted)
next
  fix i j
  assume ij: "i < j \<and> j < length (Tasks_list s)"
  then have "list_key (Tasks_list s ! j) \<le> list_key (Tasks_list s ! i)"
    unfolding Tasks_list_def Let_def by (simp add: py_sorted_descending)
  then show ge: "fst (list_key (Tasks_list s ! j)) \<le> fst (list_key (Tasks_list s ! i))"
    by (rule fst_le_lex)
  {
    fix d d'
    assume "due_date (Tasks_list s ! i) = Some d \<and> due_date (Tasks_list s ! j) = Some d'"
    with ge show "d' \<le> d"
      by (simp add: list_key_def)
  }
  {
    fix d'
    assume "due_date (Tasks_list s ! i) = None \<and> due_date (Tasks_list s ! j) = Some d'"
    with ge show "d' \<le> datetime_min"
      by (simp add: list_key_def)
  }
qed

text \<open>
  On the example store the listing is: read mail (due 1 February, priority 1), write
  report (1 February, priority 3), buy milk (1 January), call home (no due date).
\<close>

theorem Tasks_list_sorted_witness:
  "(1::nat) < 2 \<and> 2 < length (Tasks_list example_store) \<and>
   Tasks_list example_store
     = [example_tasks ! 1, example_tasks ! 0, example_tasks ! 3, example_tasks ! 2] \<and>
   due_date (Tasks_list example_store ! 1) = Some feb1 \<and>
   due_date (Tasks_list example_store ! 2) = Some jan1 \<and>
   jan1 \<le> feb1"
proof -
  have l: "Tasks_list example_store
     = [example_tasks ! 1, example_tasks ! 0, example_tasks ! 3, example_tasks ! 2]"
    by (simp add: Tasks_list_def py_sorted_def list_key_def example_defs datetime_min_def)
  have h: "(1::nat) < 2 \<and> 2 < length (Tasks_list example_store)"
    by (simp add: l)
  have e: "due_date (Tasks_list example_store ! 1) = Some feb1 \<and>
           due_date (Tasks_list example_store ! 2) = Some jan1"
    unfolding l by (simp add: example_tasks_def Task_init_def)
  from Tasks_list_sorted [of example_store] h e
  have "jan1 \<le> feb1"
    by blast
  with l h e show ?thesis by blast
qed

text \<open>
  C1 as stated fails in two places. Of two active tasks due the same day, the one with
  priority 1 is listed before the one with priority 3, although the store holds them in
  the other order (\<open>Tasks_report\<close> puts the same two tasks the other way round). And a
  task with no due date is listed before a task due on 01/01/0001, a date that
  \<open>strptime\<close> accepts and that is the minimum datetime.
\<close>

theorem Tasks_list_order_counterexample:
  "Tasks_list \<lparr>tasks = [Task_init t0 1 ''a'' 3 (Some feb1), Task_init t0 2 ''b'' 1 (Some feb1)],
               disk = (None :: unit option)\<rparr>
     = [Task_init t0 2 ''b'' 1 (Some feb1), Task_init t0 1 ''a'' 3 (Some feb1)]
   \<and> Tasks_report \<lparr>tasks = [Task_init t0 1 ''a'' 3 (Some feb1), Task_init t0 2 ''b'' 1 (Some feb1)],
               disk = (None :: unit option)\<rparr>
     = [Task_init t0 1 ''a'' 3 (Some feb1), Task_init t0 2 ''b'' 1 (Some feb1)]
   \<and> strptime ''01/01/0001'' = Some datetime_min
   \<and> Tasks_list \<lparr>tasks = [Task_init t0 1 ''a'' 1 None, Task_init t0 2 ''b'' 1 (Some datetime_min)],
               disk = (None :: unit option)\<rparr>
     = [Task_init t0 1 ''a'' 1 None, Task_init t0 2 ''b'' 1 (Some datetime_min)]"
proof (intro conjI)
  show "Tasks_list \<lparr>tasks = [Task_init t0 1 ''a'' 3 (Some feb1), Task_init t0 2 ''b'' 1 (Some feb1)],
               disk = (None :: unit option)\<rparr>
     = [Task_init t0 2 ''b'' 1 (Some feb1), Task_init t0 1 ''a'' 3 (Some feb1)]"
    by (simp add: Tasks_list_def py_sorted_def list_key_def Task_init_def feb1_def)
  show "Tasks_report \<lparr>tasks = [Task_init t0 1 ''a'' 3 (Some feb1), Task_init t0 2 ''b'' 1 (Some feb1)],
               disk = (None :: unit option)\<rparr>
     = [Task_init t0 1 ''a'' 3 (Some feb1), Task_init t0 2 ''b'' 1 (Some feb1)]"
    by (simp add: Tasks_report_def py_sorted_def report_key_def Task_init_def feb1_def)
  show "strptime ''01/01/0001'' = Some datetime_min"
    by code_simp
  show "Tasks_list \<lparr>tasks = [Task_init t0 1 ''a'' 1 None, Task_init t0 2 ''b'' 1 (Some datetime_min)],
               disk = (None :: unit option)\<rparr>
     = [Task_init t0 1 ''a'' 1 None, Task_init t0 2 ''b'' 1 (Some datetime_min)]"
    by (simp add: Tasks_list_def py_sorted_def list_key_def Task_init_def)
qed

subsection \<open>C8: the order of \<^verbatim>\<open>Tasks.report\<close>\<close>

text \<open>
  C8. \<open>Tasks_report\<close> returns all tasks of the store (as a multiset: completed and
  deleted ones too), in ascending order of the key (due date or the maximum datetime,
  minus priority). For positions \<open>i < j\<close> of the result: the key at \<open>i\<close> is at most the
  key at \<open>j\<close>; among equal due dates the higher priority comes first; and, the due dates
  of the store being dates, every task that follows a task with no due date has no due
  date either, so that the tasks without a due date come last. The due dates of a store
  built by the operations are dates (\<open>run_empty_store_dates_only\<close>), since those that
  \<open>strptime\<close> returns are.
\<close>

theorem Tasks_report_sorted:
  "mset (Tasks_report s) = mset (tasks s) \<and>
   (\<forall>i j. i < j \<and> j < length (Tasks_report s) \<longrightarrow>
      report_key (Tasks_report s ! i) \<le> report_key (Tasks_report s ! j) \<and>
      (due_date (Tasks_report s ! i) = due_date (Tasks_report s ! j) \<longrightarrow>
         priority (Tasks_report s ! j) \<le> priority (Tasks_report s ! i)) \<and>
      (dates_only (tasks s) \<and> due_date (Tasks_report s ! i) = None \<longrightarrow>
         due_date (Tasks_report s ! j) = None))"
proof (intro conjI allI impI)
  show "mset (Tasks_report s) = mset (tasks s)"
    by (simp add: Tasks_report_def mset_py_sorted)
next
  fix i j
  assume ij: "i < j \<and> j < length (Tasks_report s)"
  then show le: "report_key (Tasks_report s ! i) \<le> report_key (Tasks_report s ! j)"
    unfolding Tasks_report_def by (simp add: py_sorted_ascending)
  {
    assume "due_date (Tasks_report s ! i) = due_date (Tasks_report s ! j)"
    with le show "priority (Tasks_report s ! j) \<le> priority (Tasks_report s ! i)"
      by (simp add: report_key_def)
  }
  {
    assume a: "dates_only (tasks s) \<and> due_date (Tasks_report s ! i) = None"
    show "due_date (Tasks_report s ! j) = None"
    proof (cases "due_date (Tasks_report s ! j)")
      case None
      then show ?thesis .
    next
      case (Some d)
      from ij have "Tasks_report s ! j \<in> set (Tasks_report s)"
        by simp
      then have "Tasks_report s ! j \<in> set (tasks s)"
        by (simp add: Tasks_report_def set_py_sorted)
      with a Some have "is_date d"
        by (blast intro: dates_only_nth)
      then have "d < datetime_max"
        by (rule is_date_less_max)
      moreover from le a Some have "datetime_max \<le> d"
        by (auto simp: report_key_def)
      ultimately show ?thesis by simp
    qed
  }
qed

text \<open>
  On the example store the report is: buy milk (1 January), then the three tasks due on
  1 February by falling priority (write report 3, pay rent 2, read mail 1), then the two
  tasks with no due date (Fix Report 3, call home 1).
\<close>

theorem Tasks_report_sorted_witness:
  "Tasks_report example_store
     = [example_tasks ! 3, example_tasks ! 0, example_tasks ! 4, example_tasks ! 1,
        example_tasks ! 5, example_tasks ! 2] \<and>
   dates_only (tasks example_store) \<and>
   (1::nat) < 2 \<and> 2 < length (Tasks_report example_store) \<and>
   due_date (Tasks_report example_store ! 1) = due_date (Tasks_report example_store ! 2) \<and>
   priority (Tasks_report example_store ! 2) \<le> priority (Tasks_report example_store ! 1) \<and>
   (4::nat) < 5 \<and> 5 < length (Tasks_report example_store) \<and>
   due_date (Tasks_report example_store ! 4) = None \<and>
   due_date (Tasks_report example_store ! 5) = None"
proof -
  have r: "Tasks_report example_store
     = [example_tasks ! 3, example_tasks ! 0, example_tasks ! 4, example_tasks ! 1,
        example_tasks ! 5, example_tasks ! 2]"
    by (simp add: Tasks_report_def py_sorted_def report_key_def example_defs datetime_max_def)
  have d: "dates_only (tasks example_store)"
    by (simp add: dates_only_def is_date_def days_in_month_def example_defs)
  have h1: "(1::nat) < 2 \<and> 2 < length (Tasks_report example_store)"
    by (simp add: r)
  have h2: "(4::nat) < 5 \<and> 5 < length (Tasks_report example_store)"
    by (simp add: r)
  have e: "due_date (Tasks_report example_store ! 1) = due_date (Tasks_report example_store ! 2)"
    unfolding r by (simp add: example_tasks_def Task_init_def)
  have n: "due_date (Tasks_report example_store ! 4) = None"
    unfolding r by (simp add: example_tasks_def Task_init_def)
  from Tasks_report_sorted [of example_store] h1 e
  have p: "priority (Tasks_report example_store ! 2) \<le> priority (Tasks_report example_store ! 1)"
    by blast
  from Tasks_report_sorted [of example_store] h2 d n
  have "due_date (Tasks_report example_store ! 5) = None"
    by blast
  with r d h1 h2 e n p show ?thesis by blast
qed

subsection \<open>C2: what \<^verbatim>\<open>Tasks.list\<close> and \<^verbatim>\<open>Tasks.query\<close> leave out\<close>

lemma lowers:
  "lower ''REPORT'' = ''report''" "lower ''zzz'' = ''zzz''"
  "lower ''write report'' = ''write report''" "lower ''read mail'' = ''read mail''"
  "lower ''call home'' = ''call home''" "lower ''buy milk'' = ''buy milk''"
  "lower ''pay rent'' = ''pay rent''" "lower ''Fix Report'' = ''fix report''"
  by code_simp+

lemma Tasks_query_filter:
  "Tasks_query kws s =
     filter (\<lambda>t. completed t = None \<and> (\<exists>k\<in>set kws. sublist (lower k) (lower (name t)))) (tasks s)"
  by (simp add: Tasks_query_def list_ex_iff conj_commute)

text \<open>
  C2. Every task of \<open>Tasks_list\<close> is a task of the store that is neither completed nor
  deleted. Every task of \<open>Tasks_query\<close> is a task of the store that is not completed;
  and every task of the store that is not completed and whose lower-cased name contains
  the lower-cased form of some keyword is returned by \<open>Tasks_query\<close>, also when it is
  deleted, in which case \<open>Tasks_list\<close> does not return it. \<open>Tasks_query\<close> is the store's
  list filtered by these two conditions, so its tasks stand in the order of the store.
\<close>

theorem list_and_query_exclusions:
  "(\<forall>t\<in>set (Tasks_list s). t \<in> set (tasks s) \<and> completed t = None \<and> \<not> deleted t) \<and>
   (\<forall>t\<in>set (Tasks_query kws s). t \<in> set (tasks s) \<and> completed t = None) \<and>
   (\<forall>t\<in>set (tasks s). \<forall>k\<in>set kws. \<forall>p q.
      completed t = None \<and> lower (name t) = p @ lower k @ q \<longrightarrow>
        t \<in> set (Tasks_query kws s) \<and> (deleted t \<longrightarrow> t \<notin> set (Tasks_list s))) \<and>
   Tasks_query kws s =
     filter (\<lambda>t. completed t = None \<and> (\<exists>k\<in>set kws. sublist (lower k) (lower (name t)))) (tasks s) \<and>
   subseq (Tasks_query kws s) (tasks s)"
proof (intro conjI ballI allI impI)
  fix t
  assume "t \<in> set (Tasks_list s)"
  then show "t \<in> set (tasks s)" "completed t = None" "\<not> deleted t"
    by (simp_all add: Tasks_list_def set_py_sorted)
next
  fix t
  assume "t \<in> set (Tasks_query kws s)"
  then show "t \<in> set (tasks s)" "completed t = None"
    by (simp_all add: Tasks_query_filter)
next
  fix t k p q
  assume t: "t \<in> set (tasks s)" and k: "k \<in> set kws"
    and m: "completed t = None \<and> lower (name t) = p @ lower k @ q"
  from m have "sublist (lower k) (lower (name t))"
    by (auto simp: sublist_def)
  with t k m show "t \<in> set (Tasks_query kws s)"
    by (auto simp: Tasks_query_filter)
  {
    assume "deleted t"
    then show "t \<notin> set (Tasks_list s)"
      by (simp add: Tasks_list_def set_py_sorted)
  }
next
  show "Tasks_query kws s =
     filter (\<lambda>t. completed t = None \<and> (\<exists>k\<in>set kws. sublist (lower k) (lower (name t)))) (tasks s)"
    by (rule Tasks_query_filter)
  then show "subseq (Tasks_query kws s) (tasks s)"
    by simp
qed

text \<open>
  On the example store the query for REPORT or zzz returns write report and the
  deleted task Fix Report, in this order.
\<close>

theorem list_and_query_exclusions_witness:
  "example_tasks ! 5 \<in> set (tasks example_store) \<and>
   ''REPORT'' \<in> set [''REPORT'', ''zzz''] \<and>
   completed (example_tasks ! 5) = None \<and>
   deleted (example_tasks ! 5) \<and>
   lower (name (example_tasks ! 5)) = ''fix '' @ lower ''REPORT'' @ [] \<and>
   example_tasks ! 5 \<in> set (Tasks_query [''REPORT'', ''zzz''] example_store) \<and>
   example_tasks ! 5 \<notin> set (Tasks_list example_store) \<and>
   Tasks_query [''REPORT'', ''zzz''] example_store = [example_tasks ! 0, example_tasks ! 5]"
proof -
  have a: "example_tasks ! 5 \<in> set (tasks example_store)"
    by (simp add: example_store_def example_tasks_def)
  have b: "''REPORT'' \<in> set [''REPORT'', ''zzz'']"
    by simp
  have c: "completed (example_tasks ! 5) = None \<and> deleted (example_tasks ! 5)"
    by (simp add: example_tasks_def Task_init_def)
  have d: "lower (name (example_tasks ! 5)) = ''fix '' @ lower ''REPORT'' @ []"
    by (simp add: example_tasks_def Task_init_def lowers)
  have e: "Tasks_query [''REPORT'', ''zzz''] example_store = [example_tasks ! 0, example_tasks ! 5]"
    by (simp add: Tasks_query_def example_defs lowers sublist_Cons_right)
  from list_and_query_exclusions [of example_store "[''REPORT'', ''zzz'']"] a b c d
  have "example_tasks ! 5 \<in> set (Tasks_query [''REPORT'', ''zzz''] example_store) \<and>
        example_tasks ! 5 \<notin> set (Tasks_list example_store)"
    by blast
  with a b c d e show ?thesis by blast
qed

subsection \<open>C5: \<^verbatim>\<open>Tasks.delete\<close> of an unknown id\<close>

text \<open>
  C5. When no task of the store has the id, \<open>Tasks_delete\<close> leaves the list of tasks as
  it is (the same tasks, the same number of them) and writes this list to the file: it
  does what \<open>pickle_tasks\<close> alone does. \<open>Tasks_delete\<close> has no result and no error:
  nothing tells the caller that the id was not found.
\<close>

theorem Tasks_delete_unknown_id:
  assumes "\<forall>t\<in>set (tasks s). unique_id t \<noteq> uid"
  shows "tasks (Tasks_delete pk uid s) = tasks s \<and>
         length (tasks (Tasks_delete pk uid s)) = length (tasks s) \<and>
         disk (Tasks_delete pk uid s) = Some (dump pk (tasks s)) \<and>
         Tasks_delete pk uid s = pickle_tasks pk s"
proof -
  from assms have "filter (\<lambda>t. unique_id t \<noteq> uid) (tasks s) = tasks s"
    by (simp add: filter_id_conv)
  then show ?thesis
    by (simp add: Tasks_delete_def pickle_tasks_def)
qed

theorem Tasks_delete_unknown_id_witness:
  "list_all (\<lambda>t. unique_id t \<noteq> 9) (tasks example_store) \<and>
   tasks (Tasks_delete example_pickle 9 example_store) = example_tasks \<and>
   disk (Tasks_delete example_pickle 9 example_store) = Some example_tasks"
proof -
  have h: "\<forall>t\<in>set (tasks example_store). unique_id t \<noteq> 9"
    by (simp add: example_defs)
  from Tasks_delete_unknown_id [OF h, of example_pickle] h show ?thesis
    by (simp add: list_all_iff example_store_def example_pickle_def pickle_tasks_def)
qed

subsection \<open>C6: \<^verbatim>\<open>Tasks.done\<close>\<close>

lemma done_loop_None: "done_loop now uid ts = None \<longleftrightarrow> (\<forall>t\<in>set ts. unique_id t \<noteq> uid)"
  by (induction ts) auto

lemma done_loop_Some:
  "done_loop now uid ts = Some ts' \<Longrightarrow>
     \<exists>pre t post. ts = pre @ t # post \<and> (\<forall>x\<in>set pre. unique_id x \<noteq> uid) \<and>
        unique_id t = uid \<and> ts' = pre @ mark_completed now t # post"
proof (induction ts arbitrary: ts')
  case Nil
  then show ?case by simp
next
  case (Cons a ts)
  show ?case
  proof (cases "unique_id a = uid")
    case True
    with Cons.prems have "ts' = mark_completed now a # ts"
      by simp
    with True have "a # ts = [] @ a # ts \<and> (\<forall>x\<in>set []. unique_id x \<noteq> uid) \<and>
        unique_id a = uid \<and> ts' = [] @ mark_completed now a # ts"
      by simp
    then show ?thesis by blast
  next
    case False
    with Cons.prems obtain r where r: "done_loop now uid ts = Some r" and ts': "ts' = a # r"
      by auto
    from Cons.IH [OF r] obtain pre t post where
      "ts = pre @ t # post" "\<forall>x\<in>set pre. unique_id x \<noteq> uid" "unique_id t = uid"
      "r = pre @ mark_completed now t # post"
      by blast
    with False ts' have "a # ts = (a # pre) @ t # post \<and> (\<forall>x\<in>set (a # pre). unique_id x \<noteq> uid) \<and>
        unique_id t = uid \<and> ts' = (a # pre) @ mark_completed now t # post"
      by simp
    then show ?thesis by blast
  qed
qed

text \<open>
  C6. \<open>Tasks_done\<close> returns true exactly when some task of the store has the id. When
  it returns false the state is unchanged. When it returns true, the first task with
  the id has its completion time set to the time of the call, no other task changes,
  the new list is written to the file, and the completed task is not in the listing
  of the new state.
\<close>

theorem Tasks_done_result:
  "(snd (Tasks_done pk now uid s) \<longleftrightarrow> (\<exists>t\<in>set (tasks s). unique_id t = uid)) \<and>
   (\<not> snd (Tasks_done pk now uid s) \<longrightarrow> fst (Tasks_done pk now uid s) = s) \<and>
   (snd (Tasks_done pk now uid s) \<longrightarrow>
      (\<exists>pre t post.
         tasks s = pre @ t # post \<and> (\<forall>x\<in>set pre. unique_id x \<noteq> uid) \<and> unique_id t = uid \<and>
         tasks (fst (Tasks_done pk now uid s)) = pre @ t\<lparr>completed := Some now\<rparr> # post \<and>
         disk (fst (Tasks_done pk now uid s))
           = Some (dump pk (pre @ t\<lparr>completed := Some now\<rparr> # post)) \<and>
         t\<lparr>completed := Some now\<rparr> \<notin> set (Tasks_list (fst (Tasks_done pk now uid s)))))"
proof (cases "done_loop now uid (tasks s)")
  case None
  then have "\<forall>t\<in>set (tasks s). unique_id t \<noteq> uid"
    by (simp add: done_loop_None)
  with None show ?thesis
    by (simp add: Tasks_done_def)
next
  case (Some ts')
  from done_loop_Some [OF Some] obtain pre t post where
    split: "tasks s = pre @ t # post" "\<forall>x\<in>set pre. unique_id x \<noteq> uid" "unique_id t = uid"
      "ts' = pre @ mark_completed now t # post"
    by blast
  have res: "Tasks_done pk now uid s = (pickle_tasks pk (s\<lparr>tasks := ts'\<rparr>), True)"
    using Some by (simp add: Tasks_done_def)
  have found: "\<exists>t\<in>set (tasks s). unique_id t = uid"
    using split by auto
  have excl: "t\<lparr>completed := Some now\<rparr> \<notin> set (Tasks_list (fst (Tasks_done pk now uid s)))"
    by (simp add: Tasks_list_def set_py_sorted)
  have "tasks s = pre @ t # post \<and> (\<forall>x\<in>set pre. unique_id x \<noteq> uid) \<and> unique_id t = uid \<and>
         tasks (fst (Tasks_done pk now uid s)) = pre @ t\<lparr>completed := Some now\<rparr> # post \<and>
         disk (fst (Tasks_done pk now uid s))
           = Some (dump pk (pre @ t\<lparr>completed := Some now\<rparr> # post)) \<and>
         t\<lparr>completed := Some now\<rparr> \<notin> set (Tasks_list (fst (Tasks_done pk now uid s)))"
    using split excl by (simp add: res pickle_tasks_def mark_completed_def)
  then have "\<exists>pre t post.
         tasks s = pre @ t # post \<and> (\<forall>x\<in>set pre. unique_id x \<noteq> uid) \<and> unique_id t = uid \<and>
         tasks (fst (Tasks_done pk now uid s)) = pre @ t\<lparr>completed := Some now\<rparr> # post \<and>
         disk (fst (Tasks_done pk now uid s))
           = Some (dump pk (pre @ t\<lparr>completed := Some now\<rparr> # post)) \<and>
         t\<lparr>completed := Some now\<rparr> \<notin> set (Tasks_list (fst (Tasks_done pk now uid s)))"
    by blast
  with found res show ?thesis
    by simp
qed

theorem Tasks_done_result_witness:
  "snd (Tasks_done example_pickle t0 2 example_store) \<and>
   tasks (fst (Tasks_done example_pickle t0 2 example_store))
     = example_tasks[1 := (example_tasks ! 1)\<lparr>completed := Some t0\<rparr>] \<and>
   (example_tasks ! 1)\<lparr>completed := Some t0\<rparr>
     \<notin> set (Tasks_list (fst (Tasks_done example_pickle t0 2 example_store))) \<and>
   \<not> snd (Tasks_done example_pickle t0 9 example_store) \<and>
   fst (Tasks_done example_pickle t0 9 example_store) = example_store"
proof -
  have in2: "\<exists>t\<in>set (tasks example_store). unique_id t = 2"
    by (simp add: example_defs)
  have out9: "\<not> (\<exists>t\<in>set (tasks example_store). unique_id t = 9)"
    by (simp add: example_defs)
  from Tasks_done_result [of example_pickle t0 2 example_store] in2
  have a: "snd (Tasks_done example_pickle t0 2 example_store)"
    by blast
  from Tasks_done_result [of example_pickle t0 9 example_store] out9
  have b: "\<not> snd (Tasks_done example_pickle t0 9 example_store) \<and>
           fst (Tasks_done example_pickle t0 9 example_store) = example_store"
    by blast
  have c: "tasks (fst (Tasks_done example_pickle t0 2 example_store))
     = example_tasks[1 := (example_tasks ! 1)\<lparr>completed := Some t0\<rparr>]"
    by (simp add: Tasks_done_def example_store_def example_tasks_def Task_init_def
        mark_completed_def pickle_tasks_def)
  have d: "(example_tasks ! 1)\<lparr>completed := Some t0\<rparr>
     \<notin> set (Tasks_list (fst (Tasks_done example_pickle t0 2 example_store)))"
    by (simp add: Tasks_list_def set_py_sorted)
  from a b c d show ?thesis by blast
qed

subsection \<open>C4: the id of a new task\<close>

lemma handle_add_valid:
  assumes "nm \<noteq> []" and "\<not> isdigit nm"
  shows "\<exists>t warn. handle_add pk now nm due prio s
            = (pickle_tasks pk (s\<lparr>tasks := tasks s @ [t]\<rparr>), warn @ [Created (unique_id t)]) \<and>
          unique_id t = int (length (tasks s)) + 1 \<and> name t = nm \<and>
          completed t = None \<and> \<not> deleted t \<and> created t = now"
  using assms
  by (auto simp: handle_add_def Tasks_add_def Task_init_def Let_def split: option.splits prod.splits)

lemma Tasks_init_example: "Tasks_init example_pickle (Some ts) = Inr \<lparr>tasks = ts, disk = Some ts\<rparr>"
  by (simp add: Tasks_init_def load_tasks_def example_pickle_def)

text \<open>
  C4. An \<^verbatim>\<open>--add\<close> command with a valid name, run where the file loads as the store
  \<open>s\<close>, appends one task to the tasks of \<open>s\<close>, writes the new list to the file and
  prints \<^verbatim>\<open>Created task <id>\<close> last; the id of the new task is the number of tasks
  of \<open>s\<close> plus 1.
\<close>

theorem add_assigns_count_plus_one:
  assumes "arg_add a = Some nm" and "nm \<noteq> []" and "\<not> isdigit nm"
    and "Tasks_init pk d = Inr s"
  shows "\<exists>t warn. handle_command pk now a d
            = Inr (pickle_tasks pk (s\<lparr>tasks := tasks s @ [t]\<rparr>), warn @ [Created (unique_id t)]) \<and>
          unique_id t = int (length (tasks s)) + 1"
proof -
  from handle_add_valid [OF assms(2,3), of pk now "arg_due a" "arg_priority a" s]
  obtain t warn where
    "handle_add pk now nm (arg_due a) (arg_priority a) s
       = (pickle_tasks pk (s\<lparr>tasks := tasks s @ [t]\<rparr>), warn @ [Created (unique_id t)])"
    and "unique_id t = int (length (tasks s)) + 1"
    by blast
  with assms(1,4) have "handle_command pk now a d
            = Inr (pickle_tasks pk (s\<lparr>tasks := tasks s @ [t]\<rparr>), warn @ [Created (unique_id t)]) \<and>
          unique_id t = int (length (tasks s)) + 1"
    by (simp add: handle_command_def)
  then show ?thesis by blast
qed

text \<open>
  Adding walk dog to the example store of six tasks creates task 7.
\<close>

theorem add_assigns_count_plus_one_witness:
  "arg_add (no_args\<lparr>arg_add := Some ''walk dog''\<rparr>) = Some ''walk dog'' \<and>
   ''walk dog'' \<noteq> [] \<and> \<not> isdigit ''walk dog'' \<and>
   Tasks_init example_pickle (Some example_tasks) = Inr example_store \<and>
   handle_command example_pickle t0 (no_args\<lparr>arg_add := Some ''walk dog''\<rparr>) (Some example_tasks)
     = Inr (\<lparr>tasks = example_tasks @ [Task_init t0 7 ''walk dog'' 1 None],
             disk = Some (example_tasks @ [Task_init t0 7 ''walk dog'' 1 None])\<rparr>,
            [Created 7])"
proof -
  have a: "arg_add (no_args\<lparr>arg_add := Some ''walk dog''\<rparr>) = Some ''walk dog''"
    by simp
  have n: "''walk dog'' \<noteq> []" "\<not> isdigit ''walk dog''"
    by (simp_all add: isdigit_def is_digit_def)
  have i: "Tasks_init example_pickle (Some example_tasks) = Inr example_store"
    by (simp add: Tasks_init_example example_store_def)
  have len: "length (tasks example_store) = 6"
    by (simp add: example_store_def example_tasks_def)
  have hc: "handle_command example_pickle t0 (no_args\<lparr>arg_add := Some ''walk dog''\<rparr>) (Some example_tasks)
     = Inr (handle_add example_pickle t0 ''walk dog'' None None example_store)"
    by (simp add: handle_command_def i no_args_def)
  have ha: "handle_add example_pickle t0 ''walk dog'' None None example_store
     = (\<lparr>tasks = example_tasks @ [Task_init t0 7 ''walk dog'' 1 None],
         disk = Some (example_tasks @ [Task_init t0 7 ''walk dog'' 1 None])\<rparr>,
        [Created 7])"
    using n len
    by (simp add: handle_add_def Tasks_add_def pickle_tasks_def example_pickle_def example_store_def)
  have h: "handle_command example_pickle t0 (no_args\<lparr>arg_add := Some ''walk dog''\<rparr>) (Some example_tasks)
     = Inr (\<lparr>tasks = example_tasks @ [Task_init t0 7 ''walk dog'' 1 None],
             disk = Some (example_tasks @ [Task_init t0 7 ''walk dog'' 1 None])\<rparr>,
            [Created 7])"
    by (simp only: hc ha)
  from a n i h add_assigns_count_plus_one [OF a n i, of t0] show ?thesis by blast
qed

subsection \<open>C9: a due date that does not parse\<close>

text \<open>
  C9, as the code has it. An \<^verbatim>\<open>--add\<close> command with a valid name and a due-date
  string that \<open>strptime\<close> rejects still appends the task, with no due date, writes the
  list to the file and prints \<^verbatim>\<open>Created task <id>\<close>. The warning is printed before
  that exactly when the due-date string is not empty: the handler does not parse an
  empty string at all.
\<close>

theorem add_with_unparsable_due_date:
  assumes "arg_add a = Some nm" and "nm \<noteq> []" and "\<not> isdigit nm"
    and "arg_due a = Some text" and "strptime text = None"
    and "Tasks_init pk d = Inr s"
  shows "\<exists>t. handle_command pk now a d
            = Inr (pickle_tasks pk (s\<lparr>tasks := tasks s @ [t]\<rparr>),
                   (if text = [] then [] else [WarningInvalidDue]) @ [Created (unique_id t)]) \<and>
          due_date t = None \<and> name t = nm \<and> completed t = None \<and> \<not> deleted t \<and>
          unique_id t = int (length (tasks s)) + 1"
proof -
  let ?t = "Task_init now (int (length (tasks s)) + 1) nm
              (case arg_priority a of None \<Rightarrow> 1 | Some n \<Rightarrow> if n = 0 then 1 else n) None"
  from assms have "handle_command pk now a d
            = Inr (pickle_tasks pk (s\<lparr>tasks := tasks s @ [?t]\<rparr>),
                   (if text = [] then [] else [WarningInvalidDue]) @ [Created (unique_id ?t)]) \<and>
          due_date ?t = None \<and> name ?t = nm \<and> completed ?t = None \<and> \<not> deleted ?t \<and>
          unique_id ?t = int (length (tasks s)) + 1"
    by (simp add: handle_command_def handle_add_def Tasks_add_def Task_init_def Let_def)
  then show ?thesis by blast
qed

text \<open>
  The due date 13/45/2025 on an absent file: task 1 is created with no due date, after
  the warning.
\<close>

theorem add_with_unparsable_due_date_witness:
  "arg_add (no_args\<lparr>arg_add := Some ''walk dog'', arg_due := Some ''13/45/2025''\<rparr>) = Some ''walk dog'' \<and>
   ''walk dog'' \<noteq> [] \<and> \<not> isdigit ''walk dog'' \<and>
   arg_due (no_args\<lparr>arg_add := Some ''walk dog'', arg_due := Some ''13/45/2025''\<rparr>) = Some ''13/45/2025'' \<and>
   strptime ''13/45/2025'' = None \<and>
   Tasks_init example_pickle None = Inr \<lparr>tasks = [], disk = None\<rparr> \<and>
   handle_command example_pickle t0
       (no_args\<lparr>arg_add := Some ''walk dog'', arg_due := Some ''13/45/2025''\<rparr>) None
     = Inr (\<lparr>tasks = [Task_init t0 1 ''walk dog'' 1 None],
             disk = Some [Task_init t0 1 ''walk dog'' 1 None]\<rparr>,
            [WarningInvalidDue, Created 1])"
proof -
  let ?a = "no_args\<lparr>arg_add := Some ''walk dog'', arg_due := Some ''13/45/2025''\<rparr>"
  have a: "arg_add ?a = Some ''walk dog''"
    by simp
  have n: "''walk dog'' \<noteq> []" "\<not> isdigit ''walk dog''"
    by (simp_all add: isdigit_def is_digit_def)
  have d: "arg_due ?a = Some ''13/45/2025''"
    by simp
  have p: "strptime ''13/45/2025'' = None"
    by code_simp
  have i: "Tasks_init example_pickle None = Inr \<lparr>tasks = [], disk = None\<rparr>"
    by (simp add: Tasks_init_def load_tasks_def)
  have hc: "handle_command example_pickle t0 ?a None
     = Inr (handle_add example_pickle t0 ''walk dog'' (Some ''13/45/2025'') None
              \<lparr>tasks = [], disk = None\<rparr>)"
    by (simp add: handle_command_def i no_args_def)
  have ha: "handle_add example_pickle t0 ''walk dog'' (Some ''13/45/2025'') None
              \<lparr>tasks = [], disk = None\<rparr>
     = (\<lparr>tasks = [Task_init t0 1 ''walk dog'' 1 None],
         disk = Some [Task_init t0 1 ''walk dog'' 1 None]\<rparr>,
        [WarningInvalidDue, Created 1])"
    using n p
    by (simp add: handle_add_def Tasks_add_def pickle_tasks_def example_pickle_def)
  from add_with_unparsable_due_date [OF a n d p i, of t0] hc ha a n d p i show ?thesis
    by simp
qed

text \<open>
  C9 as stated fails on the empty due-date string: it does not parse as a date, the
  task is created with no due date, and no warning is printed.
\<close>

theorem add_with_empty_due_date_counterexample:
  "strptime [] = None \<and>
   handle_command example_pickle t0 (no_args\<lparr>arg_add := Some ''walk dog'', arg_due := Some []\<rparr>) None
     = Inr (\<lparr>tasks = [Task_init t0 1 ''walk dog'' 1 None],
             disk = Some [Task_init t0 1 ''walk dog'' 1 None]\<rparr>,
            [Created 1])"
proof
  show "strptime [] = None"
    by (simp add: strptime_def)
  have n: "\<not> isdigit ''walk dog''"
    by (simp add: isdigit_def is_digit_def)
  have i: "Tasks_init example_pickle None = Inr \<lparr>tasks = [], disk = None\<rparr>"
    by (simp add: Tasks_init_def load_tasks_def)
  have hc: "handle_command example_pickle t0 (no_args\<lparr>arg_add := Some ''walk dog'', arg_due := Some []\<rparr>) None
     = Inr (handle_add example_pickle t0 ''walk dog'' (Some []) None \<lparr>tasks = [], disk = None\<rparr>)"
    by (simp add: handle_command_def i no_args_def)
  have ha: "handle_add example_pickle t0 ''walk dog'' (Some []) None \<lparr>tasks = [], disk = None\<rparr>
     = (\<lparr>tasks = [Task_init t0 1 ''walk dog'' 1 None],
         disk = Some [Task_init t0 1 ''walk dog'' 1 None]\<rparr>,
        [Created 1])"
    using n
    by (simp add: handle_add_def Tasks_add_def pickle_tasks_def example_pickle_def)
  show "handle_command example_pickle t0 (no_args\<lparr>arg_add := Some ''walk dog'', arg_due := Some []\<rparr>) None
     = Inr (\<lparr>tasks = [Task_init t0 1 ''walk dog'' 1 None],
             disk = Some [Task_init t0 1 ''walk dog'' 1 None]\<rparr>,
            [Created 1])"
    by (simp only: hc ha)
qed

subsection \<open>C10: what the \<^verbatim>\<open>--report\<close> command prints\<close>

text \<open>
  C10. When the command that runs is \<^verbatim>\<open>--report\<close> (no earlier branch of the handler
  is taken) and the file loads as the store \<open>s\<close>, the handler leaves the state as it is
  and calls \<^verbatim>\<open>print_tasks\<close> once, with the tasks of \<open>s\<close> in the order of the store and
  the three columns switched on. It does not print the list that \<open>Tasks_report\<close>
  returns, whenever the two lists differ.
\<close>

theorem report_command_prints_store_order:
  assumes "arg_add a = None" and "\<not> arg_list a" and "\<not> truthy_list (arg_query a)"
    and "\<not> truthy_int (arg_done a)" and "\<not> truthy_int (arg_delete a)" and "arg_report a"
    and "Tasks_init pk d = Inr s"
  shows "handle_command pk now a d = Inr (s, [PrintTasks (tasks s) True True True]) \<and>
         (tasks s \<noteq> Tasks_report s \<longrightarrow>
            handle_command pk now a d \<noteq> Inr (s, [PrintTasks (Tasks_report s) True True True]))"
  using assms by (simp add: handle_command_def)

text \<open>
  On the example store the two lists differ, and the command prints the store's list.
\<close>

theorem report_command_prints_store_order_witness:
  "arg_add (no_args\<lparr>arg_report := True\<rparr>) = None \<and>
   \<not> arg_list (no_args\<lparr>arg_report := True\<rparr>) \<and>
   \<not> truthy_list (arg_query (no_args\<lparr>arg_report := True\<rparr>)) \<and>
   \<not> truthy_int (arg_done (no_args\<lparr>arg_report := True\<rparr>)) \<and>
   \<not> truthy_int (arg_delete (no_args\<lparr>arg_report := True\<rparr>)) \<and>
   arg_report (no_args\<lparr>arg_report := True\<rparr>) \<and>
   Tasks_init example_pickle (Some example_tasks) = Inr example_store \<and>
   tasks example_store \<noteq> Tasks_report example_store \<and>
   handle_command example_pickle t0 (no_args\<lparr>arg_report := True\<rparr>) (Some example_tasks)
     = Inr (example_store, [PrintTasks example_tasks True True True]) \<and>
   handle_command example_pickle t0 (no_args\<lparr>arg_report := True\<rparr>) (Some example_tasks)
     \<noteq> Inr (example_store, [PrintTasks (Tasks_report example_store) True True True])"
proof -
  let ?a = "no_args\<lparr>arg_report := True\<rparr>"
  have a: "arg_add ?a = None" "\<not> arg_list ?a" "\<not> truthy_list (arg_query ?a)"
    "\<not> truthy_int (arg_done ?a)" "\<not> truthy_int (arg_delete ?a)" "arg_report ?a"
    by (simp_all add: no_args_def truthy_list_def truthy_int_def)
  have i: "Tasks_init example_pickle (Some example_tasks) = Inr example_store"
    by (simp add: Tasks_init_example example_store_def)
  have r: "Tasks_report example_store
     = [example_tasks ! 3, example_tasks ! 0, example_tasks ! 4, example_tasks ! 1,
        example_tasks ! 5, example_tasks ! 2]"
    by (simp add: Tasks_report_def py_sorted_def report_key_def example_defs datetime_max_def)
  have ne: "tasks example_store \<noteq> Tasks_report example_store"
    unfolding r by (simp add: example_store_def example_tasks_def Task_init_def)
  have t: "tasks example_store = example_tasks"
    by (simp add: example_store_def)
  from report_command_prints_store_order [OF a i, of t0] ne t a i show ?thesis
    by simp
qed

subsection \<open>C7: saving and loading\<close>

text \<open>Reading the \<^verbatim>\<open>__dict__\<close> of a task gives the task back, with its seven fields.\<close>

lemma Task_of_dict_Task_dict: "Task_of_dict (Task_dict t) = Some t"
  by (cases t)
     (simp add: Task_of_dict_def Task_dict_def attribute_def optional_datetime_def
        split: option.splits)

lemma unpickle_pickle_Task: "unpickle_Task (pickle_Task t) = Some t"
  by (simp add: pickle_Task_def Task_of_dict_Task_dict)

lemma those_unpickle_pickle: "those (map unpickle_Task (map pickle_Task ts)) = Some ts"
  by (induction ts) (simp_all add: unpickle_pickle_Task)

lemma py_pickle_load_dump: "load py_pickle (dump py_pickle ts) = Some ts"
  using those_unpickle_pickle [of ts] by (simp add: py_pickle_def)

text \<open>
  A graph that lacks an attribute, holds a value of another type in one, or is not a
  list, does not load.
\<close>

lemma py_pickle_rejects:
  "load py_pickle (PInt 3) = None"
  "load py_pickle (PList [PInstance ''__main__.Task'' []]) = None"
  "load py_pickle (PList [PInstance ''__main__.Task''
     [(''created'', PDatetime t0), (''completed'', PNone), (''deleted'', PBool False),
      (''name'', PStr ''a''), (''unique_id'', PStr ''1''), (''priority'', PInt 1),
      (''due_date'', PNone)]]) = None"
  by (simp_all add: py_pickle_def Task_of_dict_def attribute_def)

text \<open>
  For any pickle module: where its \<open>load\<close> gives back the list that its \<open>dump\<close> was
  given, loading after saving gives back the list of the store.
\<close>

lemma load_tasks_after_pickle_tasks:
  assumes "load pk (dump pk (tasks s)) = Some (tasks s)" and "disk s' = disk (pickle_tasks pk s)"
  shows "load_tasks pk s' = Inr (s'\<lparr>tasks := tasks s\<rparr>)"
  using assms by (simp add: load_tasks_def pickle_tasks_def)

text \<open>
  C7. For every list of tasks, \<open>pickle_tasks\<close> writes the graph of the list to the file:
  one instance of \<^verbatim>\<open>Task\<close> for each task, in the order of the list, each with its
  seven attributes. \<open>load_tasks\<close> after that, in the same state, in a new \<^verbatim>\<open>Tasks()\<close> or
  in any state that finds this file, yields the list that was saved: the same tasks,
  every field equal, in the same order.
\<close>

theorem pickle_round_trip:
  "disk (pickle_tasks py_pickle s) = Some (PList (map pickle_Task (tasks s))) \<and>
   load_tasks py_pickle (pickle_tasks py_pickle s) = Inr (pickle_tasks py_pickle s) \<and>
   tasks (pickle_tasks py_pickle s) = tasks s \<and>
   Tasks_init py_pickle (disk (pickle_tasks py_pickle s))
     = Inr \<lparr>tasks = tasks s, disk = Some (PList (map pickle_Task (tasks s)))\<rparr> \<and>
   (\<forall>s'. disk s' = disk (pickle_tasks py_pickle s) \<longrightarrow>
      load_tasks py_pickle s' = Inr (s'\<lparr>tasks := tasks s\<rparr>))"
proof (intro conjI allI impI)
  have rt: "load py_pickle (dump py_pickle (tasks s)) = Some (tasks s)"
    by (rule py_pickle_load_dump)
  show d: "disk (pickle_tasks py_pickle s) = Some (PList (map pickle_Task (tasks s)))"
    by (simp add: pickle_tasks_def py_pickle_def)
  show "tasks (pickle_tasks py_pickle s) = tasks s"
    by (simp add: pickle_tasks_def)
  have "load_tasks py_pickle (pickle_tasks py_pickle s)
          = Inr ((pickle_tasks py_pickle s)\<lparr>tasks := tasks s\<rparr>)"
    using rt by (rule load_tasks_after_pickle_tasks) simp
  then show "load_tasks py_pickle (pickle_tasks py_pickle s) = Inr (pickle_tasks py_pickle s)"
    by (simp add: pickle_tasks_def)
  have "load_tasks py_pickle \<lparr>tasks = [], disk = disk (pickle_tasks py_pickle s)\<rparr>
          = Inr (\<lparr>tasks = [], disk = disk (pickle_tasks py_pickle s)\<rparr>\<lparr>tasks := tasks s\<rparr>)"
    using rt by (rule load_tasks_after_pickle_tasks) simp
  then show "Tasks_init py_pickle (disk (pickle_tasks py_pickle s))
     = Inr \<lparr>tasks = tasks s, disk = Some (PList (map pickle_Task (tasks s)))\<rparr>"
    by (simp add: Tasks_init_def d)
  fix s' :: "pyval state"
  assume "disk s' = disk (pickle_tasks py_pickle s)"
  with rt show "load_tasks py_pickle s' = Inr (s'\<lparr>tasks := tasks s\<rparr>)"
    by (rule load_tasks_after_pickle_tasks)
qed

text \<open>
  The example tasks are saved where no file exists: the file then holds the graph of
  the six tasks, and a state with another list in memory that loads this file holds
  the six tasks again. The graph of the completed task pay rent is shown in full.
\<close>

theorem pickle_round_trip_witness:
  "disk (pickle_tasks py_pickle \<lparr>tasks = example_tasks, disk = None\<rparr>)
     = Some (PList (map pickle_Task example_tasks)) \<and>
   pickle_Task (example_tasks ! 4)
     = PInstance ''__main__.Task''
         [(''created'', PDatetime t0), (''completed'', PDatetime t0), (''deleted'', PBool False),
          (''name'', PStr ''pay rent''), (''unique_id'', PInt 5), (''priority'', PInt 2),
          (''due_date'', PDatetime feb1)] \<and>
   disk \<lparr>tasks = [example_tasks ! 0], disk = Some (PList (map pickle_Task example_tasks))\<rparr>
     = disk (pickle_tasks py_pickle \<lparr>tasks = example_tasks, disk = None\<rparr>) \<and>
   load_tasks py_pickle
       \<lparr>tasks = [example_tasks ! 0], disk = Some (PList (map pickle_Task example_tasks))\<rparr>
     = Inr \<lparr>tasks = example_tasks, disk = Some (PList (map pickle_Task example_tasks))\<rparr> \<and>
   Tasks_init py_pickle (disk (pickle_tasks py_pickle \<lparr>tasks = example_tasks, disk = None\<rparr>))
     = Inr \<lparr>tasks = example_tasks, disk = Some (PList (map pickle_Task example_tasks))\<rparr>"
proof -
  let ?s = "\<lparr>tasks = example_tasks, disk = (None :: pyval option)\<rparr>"
  let ?s' = "\<lparr>tasks = [example_tasks ! 0], disk = Some (PList (map pickle_Task example_tasks))\<rparr>"
  have g: "pickle_Task (example_tasks ! 4)
     = PInstance ''__main__.Task''
         [(''created'', PDatetime t0), (''completed'', PDatetime t0), (''deleted'', PBool False),
          (''name'', PStr ''pay rent''), (''unique_id'', PInt 5), (''priority'', PInt 2),
          (''due_date'', PDatetime feb1)]"
    by (simp add: pickle_Task_def Task_dict_def optional_datetime_def example_tasks_def
        Task_init_def)
  have h: "disk ?s' = disk (pickle_tasks py_pickle ?s)"
    by (simp add: pickle_tasks_def py_pickle_def)
  from pickle_round_trip [of ?s]
  have d: "disk (pickle_tasks py_pickle ?s) = Some (PList (map pickle_Task (tasks ?s)))"
    and i: "Tasks_init py_pickle (disk (pickle_tasks py_pickle ?s))
              = Inr \<lparr>tasks = tasks ?s, disk = Some (PList (map pickle_Task (tasks ?s)))\<rparr>"
    and a: "\<forall>s'. disk s' = disk (pickle_tasks py_pickle ?s) \<longrightarrow>
              load_tasks py_pickle s' = Inr (s'\<lparr>tasks := tasks ?s\<rparr>)"
    by blast+
  from a h have l: "load_tasks py_pickle ?s' = Inr (?s'\<lparr>tasks := tasks ?s\<rparr>)"
    by blast
  have t: "tasks ?s = example_tasks"
    by simp
  have u: "?s'\<lparr>tasks := example_tasks\<rparr>
             = \<lparr>tasks = example_tasks, disk = Some (PList (map pickle_Task example_tasks))\<rparr>"
    by simp
  from d i l g h show ?thesis
    unfolding t u by blast
qed

subsection \<open>C3: the ids of the tasks created\<close>

lemma created_ids_append: "created_ids (xs @ ys) = created_ids xs @ created_ids ys"
  by (induction xs rule: created_ids.induct) simp_all

lemma done_loop_ids: "done_loop now uid ts = Some ts' \<Longrightarrow> map unique_id ts' = map unique_id ts"
  by (induction ts arbitrary: ts') (auto simp: mark_completed_def split: if_splits)

lemma handle_done_ids:
  "map unique_id (tasks (fst (handle_done pk now uid s))) = map unique_id (tasks s) \<and>
   created_ids (snd (handle_done pk now uid s)) = []"
  by (cases "done_loop now uid (tasks s)")
     (simp_all add: handle_done_def Tasks_done_def pickle_tasks_def done_loop_ids)

lemma handle_delete_ids:
  "map unique_id (tasks (fst (handle_delete pk uid s))) = map unique_id (tasks s) \<and>
   created_ids (snd (handle_delete pk uid s)) = []"
proof (cases "get_task_by_id uid (tasks s)")
  case None
  then show ?thesis by (simp add: handle_delete_def)
next
  case (Some i)
  then have "i < length (tasks s)"
    by (rule get_task_by_id_less)
  then have "map unique_id ((tasks s)[i := mark_deleted (tasks s ! i)]) = map unique_id (tasks s)"
    by (simp add: map_update mark_deleted_def list_update_same_conv)
  with Some show ?thesis
    by (simp add: handle_delete_def pickle_tasks_def)
qed

lemma handle_add_ids:
  "map unique_id (tasks (fst (handle_add pk now nm due prio s)))
     = map unique_id (tasks s) @ created_ids (snd (handle_add pk now nm due prio s)) \<and>
   (created_ids (snd (handle_add pk now nm due prio s)) = [] \<or>
    created_ids (snd (handle_add pk now nm due prio s)) = [int (length (tasks s)) + 1])"
  by (auto simp: handle_add_def Tasks_add_def pickle_tasks_def Task_init_def Let_def
      created_ids_append split: option.splits)

lemma ids_by_position_snoc:
  "ids_by_position ts \<Longrightarrow> map unique_id ts' = map unique_id ts @ [int (length ts) + 1]
     \<Longrightarrow> ids_by_position ts'"
proof -
  assume a: "ids_by_position ts" and b: "map unique_id ts' = map unique_id ts @ [int (length ts) + 1]"
  from b have "length (map unique_id ts') = length (map unique_id ts @ [int (length ts) + 1])"
    by simp
  then have l: "length ts' = Suc (length ts)"
    by simp
  from a b l show ?thesis
    by (simp add: ids_by_position_def)
qed

lemma ids_by_position_cong:
  "ids_by_position ts \<Longrightarrow> map unique_id ts' = map unique_id ts \<Longrightarrow> ids_by_position ts'"
proof -
  assume a: "ids_by_position ts" and b: "map unique_id ts' = map unique_id ts"
  from b have "length (map unique_id ts') = length (map unique_id ts)"
    by simp
  then have "length ts' = length ts"
    by simp
  with a b show ?thesis
    by (simp add: ids_by_position_def)
qed

lemma apply_op_ids:
  assumes "\<not> is_Delete x" and "ids_by_position (tasks s)"
  shows "ids_by_position (tasks (fst (apply_op pk now x s))) \<and>
         map unique_id (tasks (fst (apply_op pk now x s)))
           = map unique_id (tasks s) @ created_ids (snd (apply_op pk now x s))"
proof (cases x)
  case (Add nm due prio)
  from handle_add_ids [of pk now nm due prio s] assms(2) Add show ?thesis
    by (auto intro: ids_by_position_snoc ids_by_position_cong)
next
  case (Delete uid)
  with assms(1) show ?thesis by simp
next
  case (MarkCompleted uid)
  from handle_done_ids [of pk now uid s] assms(2) MarkCompleted show ?thesis
    by (auto intro: ids_by_position_cong)
next
  case (MarkDeleted uid)
  from handle_delete_ids [of pk uid s] assms(2) MarkDeleted show ?thesis
    by (auto intro: ids_by_position_cong)
qed

lemma run_ids:
  assumes "\<forall>x\<in>set ops. \<not> is_Delete (snd x)" and "ids_by_position (tasks s)"
  shows "ids_by_position (tasks (fst (run pk ops s))) \<and>
         map unique_id (tasks (fst (run pk ops s)))
           = map unique_id (tasks s) @ created_ids (snd (run pk ops s))"
  using assms
proof (induction ops arbitrary: s)
  case Nil
  then show ?case by simp
next
  case (Cons a ops)
  obtain now x where a: "a = (now, x)"
    by (cases a)
  obtain s' out where step: "apply_op pk now x s = (s', out)"
    by (cases "apply_op pk now x s")
  obtain s'' out' where rest: "run pk ops s' = (s'', out')"
    by (cases "run pk ops s'")
  from Cons.prems a have nd: "\<not> is_Delete x" and nds: "\<forall>x\<in>set ops. \<not> is_Delete (snd x)"
    by simp_all
  from apply_op_ids [OF nd Cons.prems(2), of pk now] step
  have s': "ids_by_position (tasks s')" "map unique_id (tasks s') = map unique_id (tasks s) @ created_ids out"
    by simp_all
  from Cons.IH [OF nds s'(1)] rest
  have s'': "ids_by_position (tasks s'')"
    "map unique_id (tasks s'') = map unique_id (tasks s') @ created_ids out'"
    by simp_all
  from s' s'' show ?case
    by (simp add: a step rest created_ids_append)
qed

lemma name_checks: "\<not> isdigit ''a''" "\<not> isdigit ''b''" "\<not> isdigit ''c''"
  by (simp_all add: isdigit_def is_digit_def)

text \<open>
  C3, as the code has it. In a sequence of operations on the empty store in which no
  task is removed (\<open>Add\<close>, \<open>MarkCompleted\<close> and \<open>MarkDeleted\<close> only), the ids of the tasks
  created are pairwise distinct: they are the ids of the tasks of the store, which are
  1, 2, 3 and so on in the order of the store.
\<close>

theorem ids_distinct_without_Delete:
  assumes "\<forall>x\<in>set ops. \<not> is_Delete (snd x)"
  shows "distinct (created_ids (snd (run pk ops empty_store))) \<and>
         distinct (map unique_id (tasks (fst (run pk ops empty_store)))) \<and>
         created_ids (snd (run pk ops empty_store))
           = map unique_id (tasks (fst (run pk ops empty_store))) \<and>
         created_ids (snd (run pk ops empty_store))
           = map int [1..<Suc (length (tasks (fst (run pk ops empty_store))))]"
proof -
  have e: "ids_by_position (tasks (empty_store :: 'a state))"
    by (simp add: ids_by_position_def empty_store_def)
  from run_ids [OF assms e, of pk]
  have r: "ids_by_position (tasks (fst (run pk ops empty_store)))"
    and a: "map unique_id (tasks (fst (run pk ops empty_store)))
             = map unique_id (tasks (empty_store :: 'a state)) @ created_ids (snd (run pk ops empty_store))"
    by blast+
  from r have i: "map unique_id (tasks (fst (run pk ops empty_store)))
             = map int [1..<Suc (length (tasks (fst (run pk ops empty_store))))]"
    by (simp only: ids_by_position_def)
  from a have c: "map unique_id (tasks (fst (run pk ops empty_store)))
             = created_ids (snd (run pk ops empty_store))"
    by (simp add: empty_store_def)
  have "distinct (map int [1..<Suc (length (tasks (fst (run pk ops empty_store))))])"
    by (simp add: distinct_map)
  with i c show ?thesis
    by (metis (no_types))
qed

text \<open>
  Three tasks are created (one \<open>Add\<close> is refused, its name being all digits), with the
  ids 1, 2 and 3.
\<close>

theorem ids_distinct_without_Delete_witness:
  "list_all (\<lambda>x. \<not> is_Delete (snd x))
     [(t0, Add ''a'' None None), (t0, Add ''123'' None None), (t0, MarkDeleted 1),
      (t0, Add ''b'' None None), (t0, MarkCompleted 2), (t0, Add ''c'' None None)] \<and>
   created_ids (snd (run example_pickle
     [(t0, Add ''a'' None None), (t0, Add ''123'' None None), (t0, MarkDeleted 1),
      (t0, Add ''b'' None None), (t0, MarkCompleted 2), (t0, Add ''c'' None None)] empty_store))
     = [1, 2, 3] \<and>
   distinct (created_ids (snd (run example_pickle
     [(t0, Add ''a'' None None), (t0, Add ''123'' None None), (t0, MarkDeleted 1),
      (t0, Add ''b'' None None), (t0, MarkCompleted 2), (t0, Add ''c'' None None)] empty_store)))"
proof -
  let ?ops = "[(t0, Add ''a'' None None), (t0, Add ''123'' None None), (t0, MarkDeleted 1),
      (t0, Add ''b'' None None), (t0, MarkCompleted 2), (t0, Add ''c'' None None)]"
  have h: "\<forall>x\<in>set ?ops. \<not> is_Delete (snd x)"
    by simp
  have d: "isdigit ''123''"
    by (simp add: isdigit_def is_digit_def)
  have c: "created_ids (snd (run example_pickle ?ops empty_store)) = [1, 2, 3]"
    by (simp add: empty_store_def handle_add_def Tasks_add_def handle_delete_def handle_done_def
        Tasks_done_def pickle_tasks_def Task_init_def name_checks d example_pickle_def)
  from ids_distinct_without_Delete [OF h, of example_pickle] h c show ?thesis
    by (simp add: list_all_iff)
qed

text \<open>
  C3 as stated fails once \<open>Delete\<close> removes a task: after two tasks are created and
  task 1 is removed, the next task gets the id 2 again, and the store holds two tasks
  with the id 2.
\<close>

theorem ids_repeat_after_Delete_counterexample:
  "created_ids (snd (run example_pickle
      [(t0, Add ''a'' None None), (t0, Add ''b'' None None), (t0, Delete 1),
       (t0, Add ''c'' None None)] empty_store)) = [1, 2, 2] \<and>
   map unique_id (tasks (fst (run example_pickle
      [(t0, Add ''a'' None None), (t0, Add ''b'' None None), (t0, Delete 1),
       (t0, Add ''c'' None None)] empty_store))) = [2, 2]"
  by (simp add: empty_store_def handle_add_def Tasks_add_def Tasks_delete_def pickle_tasks_def
      Task_init_def name_checks example_pickle_def)

end
